theory Spec2Isabelle
  imports Main "HOL-Library.Word"
begin

section \<open>Python values used by \<^verbatim>\<open>electionguard/serialize.py\<close>\<close>

text \<open>
  A Python \<^verbatim>\<open>bytes\<close> object is a list of 8-bit words. Python integers are unbounded,
  hence \<open>int\<close>. An exception is a value of \<open>error\<close>; a function that can raise
  returns \<open>error + 'a\<close> with \<open>Inl\<close> for the exception, and a function that cannot raise
  returns its value directly.
\<close>

type_synonym byte = "8 word"
type_synonym bytes = "byte list"

datatype error =
    TruncationError string  \<comment> \<open>\<^verbatim>\<open>class TruncationError(ValueError)\<close> of serialize.py\<close>
  | OverflowError string    \<comment> \<open>raised by \<^verbatim>\<open>int.to_bytes\<close>\<close>
  | ValueError string
  | JSONDecodeError string  \<comment> \<open>raised by \<^verbatim>\<open>json.loads\<close>\<close>
  | OtherError string       \<comment> \<open>any other exception of an imported library\<close>

datatype byteorder = Big | Little

definition bytes_of_ascii :: "string \<Rightarrow> bytes" where
  \<comment> \<open>the bytes literal \<^verbatim>\<open>b"..."\<close> of an ASCII text\<close>
  "bytes_of_ascii s = map (\<lambda>c. of_nat (of_char c)) s"

subsection \<open>Slicing\<close>

text \<open>
  \<^verbatim>\<open>xs[start:stop]\<close> never raises. An index below zero counts from the end, and every
  index is clamped into \<open>0..len(xs)\<close>; a start at or after the stop gives the empty
  sequence. \<open>None\<close> is an omitted bound.
\<close>

definition adjust_index :: "int \<Rightarrow> nat \<Rightarrow> nat" where
  "adjust_index i n =
     (if i < 0 then (if i + int n < 0 then 0 else nat (i + int n))
      else if int n \<le> i then n else nat i)"

definition py_slice :: "'a list \<Rightarrow> int option \<Rightarrow> int option \<Rightarrow> 'a list" where
  "py_slice xs start stop =
     (let n = length xs;
          s = (case start of None \<Rightarrow> 0 | Some i \<Rightarrow> adjust_index i n);
          e = (case stop of None \<Rightarrow> n | Some j \<Rightarrow> adjust_index j n)
      in take (e - s) (drop s xs))"

definition bytes_times :: "bytes \<Rightarrow> int \<Rightarrow> bytes" where
  \<comment> \<open>\<^verbatim>\<open>b * k\<close>: \<open>k\<close> copies of \<open>b\<close>, none when \<open>k \<le> 0\<close>\<close>
  "bytes_times b k = concat (replicate (nat k) b)"

subsection \<open>\<^verbatim>\<open>int.to_bytes\<close> and \<^verbatim>\<open>int.from_bytes\<close>\<close>

text \<open>
  \<open>le_digits k n\<close> is the \<open>k\<close> low base-256 digits of \<open>n\<close>, least significant
  first, and \<open>from_le\<close> reads such digits back. \<^verbatim>\<open>n.to_bytes(len, order)\<close> raises
  \<^verbatim>\<open>OverflowError\<close> when \<open>n\<close> is negative or does not fit into \<open>len\<close> bytes;
  \<^verbatim>\<open>int.from_bytes\<close> accepts every byte string, the empty one as 0.
\<close>

primrec le_digits :: "nat \<Rightarrow> int \<Rightarrow> bytes" where
  "le_digits 0 n = []"
| "le_digits (Suc k) n = word_of_int (n mod 256) # le_digits k (n div 256)"

primrec from_le :: "bytes \<Rightarrow> int" where
  "from_le [] = 0"
| "from_le (b # bs) = uint b + 256 * from_le bs"

definition int_to_bytes :: "int \<Rightarrow> int \<Rightarrow> byteorder \<Rightarrow> error + bytes" where
  "int_to_bytes n len order =
     (if len < 0 then Inl (ValueError ''length argument must be non-negative'')
      else if n < 0 then Inl (OverflowError ''can't convert negative int to unsigned'')
      else if 256 ^ nat len \<le> n then Inl (OverflowError ''int too big to convert'')
      else Inr (case order of
                  Little \<Rightarrow> le_digits (nat len) n
                | Big \<Rightarrow> rev (le_digits (nat len) n)))"

definition int_from_bytes :: "bytes \<Rightarrow> byteorder \<Rightarrow> int" where
  "int_from_bytes bs order =
     (case order of Little \<Rightarrow> from_le bs | Big \<Rightarrow> from_le (rev bs))"

section \<open>The padding codec\<close>

definition PAD_BYTE :: bytes where
  "PAD_BYTE = [0]"

definition PAD_INDICATOR_SIZE :: int where
  "PAD_INDICATOR_SIZE = 2"

definition BYTE_ORDER :: byteorder where
  \<comment> \<open>Modelled from the spec: \<^verbatim>\<open>utils.BYTE_ORDER\<close> is imported from a module that is
      absent; the spec writes the indicator big-endian.\<close>
  "BYTE_ORDER = Big"

definition BYTE_ENCODING :: string where
  \<comment> \<open>Modelled from the spec: \<^verbatim>\<open>utils.BYTE_ENCODING\<close> is imported from a module that is
      absent; the spec's documents are UTF-8 text.\<close>
  "BYTE_ENCODING = ''utf-8''"

text \<open>
  \<^verbatim>\<open>class PaddedDataSize(IntEnum)\<close> has one member. An \<^verbatim>\<open>IntEnum\<close> member is an
  integer, and the codec calculates with it as one; \<open>value_of\<close> is that integer.
\<close>

datatype PaddedDataSize = Bytes_512

primrec value_of :: "PaddedDataSize \<Rightarrow> int" where
  "value_of Bytes_512 = 512 - PAD_INDICATOR_SIZE"

definition add_padding :: "bytes \<Rightarrow> int \<Rightarrow> bool \<Rightarrow> error + bytes" where
  "add_padding message sz allow_truncation =
     (case (if int (length message) > sz
            then (if allow_truncation then Inr sz
                  else Inl (TruncationError
                         ''Padded data exceeds allowed padded data size of {size}.''))
            else Inr (int (length message))) of
        Inl e \<Rightarrow> Inl e
      | Inr message_length \<Rightarrow>
          (let padding_length = sz - message_length in
           case int_to_bytes padding_length PAD_INDICATOR_SIZE BYTE_ORDER of
             Inl e \<Rightarrow> Inl e
           | Inr leading_byte \<Rightarrow>
               Inr (leading_byte @ py_slice message None (Some message_length)
                      @ bytes_times PAD_BYTE padding_length)))"

definition remove_padding :: "bytes \<Rightarrow> int \<Rightarrow> bytes" where
  "remove_padding padded sz =
     (let padding_length =
            int_from_bytes (py_slice padded None (Some PAD_INDICATOR_SIZE)) BYTE_ORDER;
          message_end = sz + PAD_INDICATOR_SIZE - padding_length
      in py_slice padded (Some PAD_INDICATOR_SIZE) (Some message_end))"

section \<open>The typed serializer\<close>

text \<open>
  \<^verbatim>\<open>from_raw\<close> and \<^verbatim>\<open>to_raw\<close> are one call each into imported libraries:
  \<^verbatim>\<open>json.loads\<close>, \<^verbatim>\<open>json.dumps\<close> with \<^verbatim>\<open>default=pydantic_encoder\<close>,
  dacite's \<^verbatim>\<open>from_dict\<close> and \<^verbatim>\<open>str.encode\<close>. Their code is not part of
  serialize.py, so they are the fields of a record that every operation takes as its first
  argument; each may raise. \<open>'s\<close> is Python's \<^verbatim>\<open>str\<close>, \<open>'j\<close> the parsed JSON
  value, \<open>'v\<close> the typed value and \<open>'t\<close> the type descriptor \<^verbatim>\<open>Type[_T]\<close>.
\<close>

datatype 's raw = Str 's | Bytes bytes  \<comment> \<open>\<^verbatim>\<open>Union[str, bytes]\<close>\<close>

datatype py_type =
    Datetime | BigInteger | ContestErrorType | ElementModP | ElementModQ | ElectionType
  | BallotBoxState | ReportingUnitType | SpecVersion | VoteVariationType | ProofUsage

datatype hook = Parser_parse  \<comment> \<open>\<^verbatim>\<open>dateutil.parser.parse\<close>\<close>

record Config =
  cast :: "py_type list"
  type_hooks :: "(py_type \<times> hook) list"

record ('s, 'j, 'v, 't) library =
  json_loads :: "'s raw \<Rightarrow> error + 'j"
  json_dumps :: "'v \<Rightarrow> int \<Rightarrow> error + 's"
  from_dict :: "'t \<Rightarrow> 'j \<Rightarrow> Config \<Rightarrow> error + 'v"
  str_encode :: "'s \<Rightarrow> string \<Rightarrow> error + bytes"

definition indent :: int where
  "indent = 2"

definition config :: Config where
  "config = \<lparr>cast = [Datetime, BigInteger, ContestErrorType, ElementModP, ElementModQ,
                      ElectionType, BallotBoxState, ElectionType, ReportingUnitType,
                      SpecVersion, VoteVariationType, ProofUsage],
            type_hooks = [(Datetime, Parser_parse)]\<rparr>"

definition from_raw :: "('s, 'j, 'v, 't) library \<Rightarrow> 't \<Rightarrow> 's raw \<Rightarrow> error + 'v" where
  "from_raw L ty raw_text =
     (case json_loads L raw_text of
        Inl e \<Rightarrow> Inl e
      | Inr data \<Rightarrow> from_dict L ty data config)"

definition to_raw :: "('s, 'j, 'v, 't) library \<Rightarrow> 'v \<Rightarrow> error + 's" where
  "to_raw L data = json_dumps L data indent"

definition padded_encode :: "('s, 'j, 'v, 't) library \<Rightarrow> 'v \<Rightarrow> int \<Rightarrow> error + bytes" where
  "padded_encode L data sz =
     (case to_raw L data of
        Inl e \<Rightarrow> Inl e
      | Inr text \<Rightarrow>
          (case str_encode L text BYTE_ENCODING of
             Inl e \<Rightarrow> Inl e
           | Inr message \<Rightarrow> add_padding message sz False))"

definition padded_decode ::
  "('s, 'j, 'v, 't) library \<Rightarrow> 't \<Rightarrow> bytes \<Rightarrow> int \<Rightarrow> error + 'v" where
  "padded_decode L ty padded_data sz =
     from_raw L ty (Bytes (remove_padding padded_data sz))"

text \<open>
  To run \<open>padded_encode\<close> on concrete inputs: a library whose serializer returns a text
  unchanged and whose encoder writes one byte per character. The parser and
  \<^verbatim>\<open>from_dict\<close> are left open as its two arguments.
\<close>

definition stub_encoder ::
  "(string raw \<Rightarrow> error + 'j) \<Rightarrow> ('t \<Rightarrow> 'j \<Rightarrow> Config \<Rightarrow> error + string)
     \<Rightarrow> (string, 'j, string, 't) library" where
  "stub_encoder loads build =
     \<lparr>json_loads = loads,
      json_dumps = (\<lambda>v i. Inr v),
      from_dict = build,
      str_encode = (\<lambda>s enc. Inr (bytes_of_ascii s))\<rparr>"

section \<open>Facts about the primitives\<close>

lemma length_le_digits: "length (le_digits k n) = k"
  by (induction k arbitrary: n) simp_all

lemma uint_byte_of_mod: "uint (word_of_int (n mod 256) :: byte) = n mod 256"
  by (simp add: uint_word_of_int take_bit_eq_mod)

lemma from_le_le_digits: "0 \<le> n \<Longrightarrow> n < 256 ^ k \<Longrightarrow> from_le (le_digits k n) = n"
proof (induction k arbitrary: n)
  case 0
  then show ?case by simp
next
  case (Suc k)
  have "n div 256 < 256 ^ k"
    using Suc.prems by (simp add: div_less_iff_less_mult mult.commute)
  moreover have "0 \<le> n div 256"
    using Suc.prems by simp
  ultimately have "from_le (le_digits k (n div 256)) = n div 256"
    by (rule Suc.IH [rotated])
  then show ?case
    by (simp add: uint_byte_of_mod)
qed

section \<open>Facts about the padding codec\<close>

lemma py_slice_to_nonneg: "0 \<le> k \<Longrightarrow> py_slice xs None (Some k) = take (nat k) xs"
  by (auto simp: py_slice_def adjust_index_def Let_def)

lemma py_slice_nonneg:
  "0 \<le> i \<Longrightarrow> 0 \<le> j \<Longrightarrow> py_slice xs (Some i) (Some j) = take (nat j - nat i) (drop (nat i) xs)"
  by (auto simp: py_slice_def adjust_index_def Let_def)

lemma int_to_bytes_indicator:
  assumes "0 \<le> n" "n < 65536"
  shows "\<exists>h. int_to_bytes n PAD_INDICATOR_SIZE order = Inr h \<and> length h = 2
             \<and> int_from_bytes h order = n"
  using assms
  by (cases order)
     (simp_all add: int_to_bytes_def int_from_bytes_def PAD_INDICATOR_SIZE_def
        length_le_digits from_le_le_digits)

lemma bytes_times_PAD_BYTE: "bytes_times PAD_BYTE k = replicate (nat k) 0"
  by (simp add: bytes_times_def PAD_BYTE_def)

lemma remove_padding_block:
  assumes "length h = 2" "int_from_bytes h BYTE_ORDER = sz - int (length p)"
  shows "remove_padding (h @ p @ f) sz = p"
proof -
  have "py_slice (h @ p @ f) None (Some PAD_INDICATOR_SIZE) = h"
    using assms(1) by (simp add: py_slice_to_nonneg PAD_INDICATOR_SIZE_def)
  then show ?thesis
    using assms
    by (simp add: remove_padding_def Let_def py_slice_nonneg PAD_INDICATOR_SIZE_def)
qed

lemma add_padding_fits:
  assumes "int (length p) \<le> sz" "sz - int (length p) < 65536"
  shows "\<exists>h. int_to_bytes (sz - int (length p)) PAD_INDICATOR_SIZE BYTE_ORDER = Inr h
             \<and> length h = 2
             \<and> int_from_bytes h BYTE_ORDER = sz - int (length p)
             \<and> add_padding p sz allow
                 = Inr (h @ p @ replicate (nat (sz - int (length p))) 0)"
proof -
  from assms obtain h where
    h: "int_to_bytes (sz - int (length p)) PAD_INDICATOR_SIZE BYTE_ORDER = Inr h"
       "length h = 2" "int_from_bytes h BYTE_ORDER = sz - int (length p)"
    using int_to_bytes_indicator [of "sz - int (length p)" BYTE_ORDER] by auto
  have "add_padding p sz allow = Inr (h @ p @ replicate (nat (sz - int (length p))) 0)"
    using assms(1) h(1)
    by (simp add: add_padding_def Let_def py_slice_to_nonneg bytes_times_PAD_BYTE)
  with h show ?thesis by blast
qed

text \<open>
  The round trip for any integer size, as long as the padding length fits the 2-byte
  indicator; the size classes are instances.
\<close>

lemma round_trip_any_size:
  assumes "int (length p) \<le> sz" "sz - int (length p) < 65536"
  shows "\<exists>block. add_padding p sz False = Inr block \<and> remove_padding block sz = p"
proof -
  from assms obtain h where
    "length h = 2" "int_from_bytes h BYTE_ORDER = sz - int (length p)"
    "add_padding p sz False = Inr (h @ p @ replicate (nat (sz - int (length p))) 0)"
    using add_padding_fits [of p sz False] by blast
  then show ?thesis
    by (simp add: remove_padding_block)
qed

lemma add_padding_oversize_refused:
  assumes "sz < int (length p)"
  shows "add_padding p sz False
           = Inl (TruncationError ''Padded data exceeds allowed padded data size of {size}.'')"
  using assms by (simp add: add_padding_def)

lemma add_padding_truncates:
  assumes "sz < int (length p)" "0 \<le> sz"
  shows "add_padding p sz True = Inr ([0, 0] @ take (nat sz) p @ [])"
proof -
  have "int_to_bytes 0 PAD_INDICATOR_SIZE BYTE_ORDER = Inr [0, 0]"
    by (cases BYTE_ORDER)
       (simp_all add: int_to_bytes_def PAD_INDICATOR_SIZE_def numeral_2_eq_2)
  then show ?thesis
    using assms
    by (simp add: add_padding_def Let_def py_slice_to_nonneg bytes_times_PAD_BYTE)
qed

lemma int_from_bytes_zero: "int_from_bytes [0, 0] order = 0"
  by (cases order) (simp_all add: int_from_bytes_def)

lemma add_padding_Inr_fits:
  assumes "add_padding p sz False = Inr blk"
  shows "int (length p) \<le> sz \<and> sz - int (length p) < 65536"
  using assms
  by (auto simp: add_padding_def Let_def int_to_bytes_def PAD_INDICATOR_SIZE_def
           split: if_splits sum.splits)

lemma value_of_range: "0 \<le> value_of s \<and> value_of s < 65536"
  by (cases s) (simp add: PAD_INDICATOR_SIZE_def)

lemma length_py_slice_from2:
  "length (py_slice xs (Some 2) (Some j)) \<le> length xs - 2"
  by (auto simp: py_slice_def adjust_index_def Let_def)

lemma py_slice_is_segment:
  "\<exists>front back. xs = front @ py_slice xs start stop @ back"
proof -
  define n where "n = length xs"
  define s where "s = (case start of None \<Rightarrow> 0 | Some i \<Rightarrow> adjust_index i n)"
  define e where "e = (case stop of None \<Rightarrow> n | Some j \<Rightarrow> adjust_index j n)"
  have "xs = take s xs @ take (e - s) (drop s xs) @ drop (e - s) (drop s xs)"
    by (simp only: append_take_drop_id)
  then show ?thesis
    unfolding py_slice_def Let_def n_def s_def e_def by blast
qed

lemma int_to_bytes_Big_two:
  "0 \<le> n \<Longrightarrow> n < 65536 \<Longrightarrow>
     int_to_bytes n PAD_INDICATOR_SIZE Big
       = Inr [word_of_int (n div 256 mod 256), word_of_int (n mod 256)]"
  by (simp add: int_to_bytes_def PAD_INDICATOR_SIZE_def numeral_2_eq_2)

lemma abc_block:
  "add_padding (bytes_of_ascii ''abc'') (value_of Bytes_512) False
     = Inr ([0x01, 0xFB] @ bytes_of_ascii ''abc'' @ replicate 507 0x00)"
  by (simp add: add_padding_def Let_def PAD_INDICATOR_SIZE_def BYTE_ORDER_def
        int_to_bytes_def py_slice_to_nonneg bytes_times_PAD_BYTE bytes_of_ascii_def numeral_2_eq_2)

section \<open>Properties of the padding codec\<close>

text \<open>
  C1. Padding round trip: for every size class and every byte string \<open>p\<close> no longer than
  the capacity of the class (the empty string included), encoding \<open>p\<close> without truncation
  succeeds, and decoding the block it returns gives back exactly \<open>p\<close>.
\<close>

theorem padding_round_trip:
  "int (length p) \<le> value_of s \<Longrightarrow>
     \<exists>block. add_padding p (value_of s) False = Inr block
            \<and> remove_padding block (value_of s) = p"
proof -
  assume fits: "int (length p) \<le> value_of s"
  have "value_of s - int (length p) < 65536"
    using value_of_range [of s] by simp
  with fits show ?thesis
    by (rule round_trip_any_size)
qed

theorem padding_round_trip_witness:
  "int (length ([] :: bytes)) \<le> value_of Bytes_512
   \<and> (\<exists>block. add_padding [] (value_of Bytes_512) False = Inr block
              \<and> remove_padding block (value_of Bytes_512) = [])
   \<and> int (length (replicate 510 (0x41 :: byte))) \<le> value_of Bytes_512
   \<and> (\<exists>block. add_padding (replicate 510 0x41) (value_of Bytes_512) False = Inr block
              \<and> remove_padding block (value_of Bytes_512) = replicate 510 0x41)"
  using padding_round_trip [of "[]" Bytes_512]
        padding_round_trip [of "replicate 510 0x41" Bytes_512]
  by (simp add: PAD_INDICATOR_SIZE_def)

text \<open>
  C2, as amended. For every payload \<open>p\<close> of length \<open>n\<close> within the capacity, the first
  2 bytes of the encoded block are the big-endian unsigned encoding of
  \<open>(len(block) - 2) - n\<close>: the capacity minus the payload length, which is the number of
  \<^verbatim>\<open>0x00\<close> filler bytes after the payload. The 2 indicator bytes are not counted.
\<close>

theorem indicator_is_filler_count:
  "int (length p) \<le> value_of s \<Longrightarrow>
     \<exists>block. add_padding p (value_of s) False = Inr block
        \<and> int (length block) - 2 = value_of s
        \<and> int_to_bytes (int (length block) - 2 - int (length p)) PAD_INDICATOR_SIZE Big
            = Inr (py_slice block None (Some 2))
        \<and> py_slice block (Some (2 + int (length p))) None
            = replicate (nat (value_of s - int (length p))) 0"
proof -
  assume fits: "int (length p) \<le> value_of s"
  have "value_of s - int (length p) < 65536"
    using value_of_range [of s] by simp
  with fits obtain h where
    h: "int_to_bytes (value_of s - int (length p)) PAD_INDICATOR_SIZE BYTE_ORDER = Inr h"
       "length h = 2"
       "add_padding p (value_of s) False
          = Inr (h @ p @ replicate (nat (value_of s - int (length p))) 0)"
    using add_padding_fits [of p "value_of s" False] by blast
  let ?block = "h @ p @ replicate (nat (value_of s - int (length p))) 0"
  have "py_slice ?block None (Some 2) = h"
    using h(2) by (simp add: py_slice_to_nonneg)
  moreover have "int (length ?block) = value_of s + 2"
    using h(2) fits by simp
  moreover have "py_slice ?block (Some (2 + int (length p))) None
                   = replicate (nat (value_of s - int (length p))) 0"
    using h(2) by (simp add: py_slice_def adjust_index_def Let_def nat_add_distrib)
  ultimately show ?thesis
    using h(1,3) by (simp add: BYTE_ORDER_def)
qed

theorem indicator_is_filler_count_witness:
  "int (length (bytes_of_ascii ''abc'')) \<le> value_of Bytes_512
   \<and> (\<exists>block. add_padding (bytes_of_ascii ''abc'') (value_of Bytes_512) False = Inr block
        \<and> int (length block) - 2 = 510
        \<and> int_to_bytes 507 PAD_INDICATOR_SIZE Big = Inr (py_slice block None (Some 2))
        \<and> py_slice block (Some 5) None = replicate 507 0)"
  using indicator_is_filler_count [of "bytes_of_ascii ''abc''" Bytes_512]
  by (auto simp: bytes_of_ascii_def PAD_INDICATOR_SIZE_def)

text \<open>
  C2, as stated, says the indicator is the total block length minus \<open>n\<close>. For the payload
  \<^verbatim>\<open>b"abc"\<close> in the 512-byte class that would be the encoding of 509; the block
  starts with the encoding of 507.
\<close>

theorem indicator_total_size_counterexample:
  "add_padding (bytes_of_ascii ''abc'') (value_of Bytes_512) False
     = Inr ([0x01, 0xFB] @ bytes_of_ascii ''abc'' @ replicate 507 0x00)
   \<and> length ([0x01, 0xFB] @ bytes_of_ascii ''abc'' @ replicate 507 0x00 :: bytes) = 512
   \<and> Inr (py_slice ([0x01, 0xFB] @ bytes_of_ascii ''abc'' @ replicate 507 0x00) None (Some 2))
       \<noteq> int_to_bytes (512 - int (length (bytes_of_ascii ''abc''))) PAD_INDICATOR_SIZE Big"
proof -
  have "Inr (py_slice ([0x01, 0xFB] @ bytes_of_ascii ''abc'' @ replicate 507 0x00) None (Some 2))
          \<noteq> int_to_bytes (512 - int (length (bytes_of_ascii ''abc''))) PAD_INDICATOR_SIZE Big"
    by (simp add: py_slice_to_nonneg int_to_bytes_Big_two bytes_of_ascii_def)
  moreover have "length ([0x01, 0xFB] @ bytes_of_ascii ''abc'' @ replicate 507 0x00 :: bytes) = 512"
    by (simp add: bytes_of_ascii_def)
  ultimately show ?thesis
    using abc_block by simp
qed

text \<open>
  C3. Truncation guard: for every payload longer than the capacity, encoding without
  truncation raises \<^verbatim>\<open>TruncationError\<close> (the result is the error, no block), and
  encoding the same payload with truncation allowed succeeds with a block that decodes to
  \<^verbatim>\<open>p[:capacity]\<close>, the first \<open>capacity\<close> bytes of the payload.
\<close>

theorem truncation_guard:
  "value_of s < int (length p) \<Longrightarrow>
     (\<exists>msg. add_padding p (value_of s) False = Inl (TruncationError msg))
   \<and> (\<exists>block. add_padding p (value_of s) True = Inr block
          \<and> remove_padding block (value_of s) = py_slice p None (Some (value_of s))
          \<and> remove_padding block (value_of s) = take (nat (value_of s)) p)"
proof -
  assume over: "value_of s < int (length p)"
  have nonneg: "0 \<le> value_of s"
    using value_of_range [of s] by simp
  have "length (take (nat (value_of s)) p) = nat (value_of s)"
    using over by simp
  then have "int_from_bytes [0, 0] BYTE_ORDER = value_of s - int (length (take (nat (value_of s)) p))"
    using nonneg by (simp add: int_from_bytes_zero)
  then have "remove_padding ([0, 0] @ take (nat (value_of s)) p @ []) (value_of s)
               = take (nat (value_of s)) p"
    by (intro remove_padding_block) simp_all
  then show ?thesis
    using over nonneg
    by (simp add: add_padding_oversize_refused add_padding_truncates py_slice_to_nonneg)
qed

theorem truncation_guard_witness:
  "value_of Bytes_512 < int (length (replicate 511 (0x41 :: byte)))
   \<and> (\<exists>msg. add_padding (replicate 511 0x41) (value_of Bytes_512) False
               = Inl (TruncationError msg))
   \<and> (\<exists>block. add_padding (replicate 511 0x41) (value_of Bytes_512) True = Inr block
          \<and> remove_padding block (value_of Bytes_512) = replicate 510 0x41)"
  using truncation_guard [of Bytes_512 "replicate 511 0x41"]
  by (auto simp: PAD_INDICATOR_SIZE_def)

text \<open>
  C4. The 512-byte scenario: encoding \<^verbatim>\<open>b"abc"\<close> in the class \<open>Bytes_512\<close> gives a
  block of 512 bytes, whose bytes \<open>[0:2]\<close> are the big-endian encoding of 507, whose bytes
  \<open>[2:5]\<close> are \<^verbatim>\<open>b"abc"\<close> and whose bytes \<open>[5:512]\<close> are 507 times \<^verbatim>\<open>0x00\<close>;
  decoding that block returns \<^verbatim>\<open>b"abc"\<close>.
\<close>

theorem abc_in_512_block:
  "add_padding (bytes_of_ascii ''abc'') (value_of Bytes_512) False
     = Inr ([0x01, 0xFB] @ bytes_of_ascii ''abc'' @ replicate 507 0x00)
   \<and> length ([0x01, 0xFB] @ bytes_of_ascii ''abc'' @ replicate 507 0x00 :: bytes) = 512
   \<and> int_to_bytes 507 PAD_INDICATOR_SIZE Big = Inr [0x01, 0xFB]
   \<and> py_slice ([0x01, 0xFB] @ bytes_of_ascii ''abc'' @ replicate 507 0x00 :: bytes)
         (Some 0) (Some 2) = [0x01, 0xFB]
   \<and> py_slice ([0x01, 0xFB] @ bytes_of_ascii ''abc'' @ replicate 507 0x00 :: bytes)
         (Some 2) (Some 5) = bytes_of_ascii ''abc''
   \<and> py_slice ([0x01, 0xFB] @ bytes_of_ascii ''abc'' @ replicate 507 0x00 :: bytes)
         (Some 5) (Some 512) = replicate 507 0x00
   \<and> remove_padding ([0x01, 0xFB] @ bytes_of_ascii ''abc'' @ replicate 507 0x00)
         (value_of Bytes_512) = bytes_of_ascii ''abc''"
proof -
  let ?abc = "bytes_of_ascii ''abc''"
  let ?block = "[0x01, 0xFB] @ ?abc @ replicate 507 0x00 :: bytes"
  have len: "length ?block = 512"
    by (simp add: bytes_of_ascii_def)
  have ind: "int_to_bytes 507 PAD_INDICATOR_SIZE Big = Inr [0x01, 0xFB]"
    by (simp add: int_to_bytes_Big_two)
  have s1: "py_slice ?block (Some 0) (Some 2) = [0x01, 0xFB]"
    by (simp add: py_slice_nonneg)
  have s2: "py_slice ?block (Some 2) (Some 5) = ?abc"
    by (simp add: py_slice_nonneg bytes_of_ascii_def numeral_2_eq_2)
  have s3: "py_slice ?block (Some 5) (Some 512) = replicate 507 0x00"
    by (simp add: py_slice_nonneg bytes_of_ascii_def numeral_2_eq_2)
  have "int_from_bytes [0x01, 0xFB] BYTE_ORDER = value_of Bytes_512 - int (length ?abc)"
    by (simp add: int_from_bytes_def BYTE_ORDER_def PAD_INDICATOR_SIZE_def bytes_of_ascii_def)
  then have dec: "remove_padding ?block (value_of Bytes_512) = ?abc"
    by (intro remove_padding_block) simp_all
  show ?thesis
    using abc_block len ind s1 s2 s3 dec by blast
qed

text \<open>
  C5. Fixed output length: every payload that fits the capacity, and every payload at all
  when truncation is allowed, encodes successfully to a block whose length is the value of
  the class plus the 2 indicator bytes: 512 bytes for \<open>Bytes_512\<close>.
\<close>

theorem encoded_block_length:
  "int (length p) \<le> value_of s \<or> allow_truncation \<Longrightarrow>
     \<exists>block. add_padding p (value_of s) allow_truncation = Inr block
        \<and> int (length block) = value_of s + PAD_INDICATOR_SIZE
        \<and> length block = 512"
proof (cases "int (length p) \<le> value_of s")
  case True
  have "value_of s - int (length p) < 65536"
    using value_of_range [of s] by simp
  with True obtain h where
    "length h = 2"
    "add_padding p (value_of s) allow_truncation
       = Inr (h @ p @ replicate (nat (value_of s - int (length p))) 0)"
    using add_padding_fits [of p "value_of s" allow_truncation] by blast
  with True show ?thesis
    by (cases s) (simp add: PAD_INDICATOR_SIZE_def)
next
  case False
  assume "int (length p) \<le> value_of s \<or> allow_truncation"
  with False have "allow_truncation" and "value_of s < int (length p)"
    by simp_all
  moreover have "0 \<le> value_of s"
    using value_of_range [of s] by simp
  ultimately show ?thesis
    by (cases s) (simp add: add_padding_truncates PAD_INDICATOR_SIZE_def)
qed

theorem encoded_block_length_witness:
  "(int (length (bytes_of_ascii ''abc'')) \<le> value_of Bytes_512
    \<and> (\<exists>block. add_padding (bytes_of_ascii ''abc'') (value_of Bytes_512) False = Inr block
           \<and> length block = 512))
   \<and> (\<exists>block. add_padding (replicate 600 0x41) (value_of Bytes_512) True = Inr block
           \<and> length block = 512)"
  using encoded_block_length [of "bytes_of_ascii ''abc''" Bytes_512 False]
        encoded_block_length [of "replicate 600 0x41" Bytes_512 True]
  by (auto simp: bytes_of_ascii_def PAD_INDICATOR_SIZE_def)

text \<open>
  C6. Decoding validates nothing and is total: for every byte string and every size,
  \<open>remove_padding\<close> returns the slice \<^verbatim>\<open>padded[2 : size + 2 - padding_length]\<close>,
  whatever the indicator holds. The result is a segment of the input, at most
  \<open>len(padded) - 2\<close> bytes long. An indicator beyond the capacity gives an empty or a
  wrong-length slice: in a 512-byte block, the indicator 65535 gives the empty string and
  the indicator 513 gives 509 bytes of the block.
\<close>

theorem remove_padding_total_unvalidated:
  "remove_padding padded sz
     = py_slice padded (Some 2)
         (Some (sz + 2 - int_from_bytes (py_slice padded None (Some 2)) BYTE_ORDER))
   \<and> length (remove_padding padded sz) \<le> length padded - 2
   \<and> (\<exists>front back. padded = front @ remove_padding padded sz @ back)
   \<and> remove_padding ([0xFF, 0xFF] @ replicate 510 0x41) (value_of Bytes_512) = []
   \<and> remove_padding ([0x02, 0x01] @ replicate 510 0x41) (value_of Bytes_512)
       = replicate 509 0x41
   \<and> remove_padding [] (value_of Bytes_512) = []"
proof -
  have def: "remove_padding padded sz
     = py_slice padded (Some 2)
         (Some (sz + 2 - int_from_bytes (py_slice padded None (Some 2)) BYTE_ORDER))"
    by (simp add: remove_padding_def Let_def PAD_INDICATOR_SIZE_def)
  have len: "length (remove_padding padded sz) \<le> length padded - 2"
    unfolding def by (rule length_py_slice_from2)
  have seg: "\<exists>front back. padded = front @ remove_padding padded sz @ back"
    unfolding def by (rule py_slice_is_segment)
  have c1: "remove_padding ([0xFF, 0xFF] @ replicate 510 0x41) (value_of Bytes_512) = []"
    by (simp add: remove_padding_def Let_def PAD_INDICATOR_SIZE_def BYTE_ORDER_def
          int_from_bytes_def py_slice_def adjust_index_def)
  have "int_from_bytes (py_slice ([0x02, 0x01] @ replicate 510 0x41) None (Some 2)) BYTE_ORDER
          = 513"
    by (simp add: py_slice_to_nonneg int_from_bytes_def BYTE_ORDER_def)
  then have c2: "remove_padding ([0x02, 0x01] @ replicate 510 0x41) (value_of Bytes_512)
              = replicate 509 0x41"
    by (simp add: remove_padding_def Let_def PAD_INDICATOR_SIZE_def py_slice_def
          adjust_index_def numeral_2_eq_2)
  have c3: "remove_padding [] (value_of Bytes_512) = []"
    by (simp add: remove_padding_def Let_def py_slice_def)
  show ?thesis
    using def len seg c1 c2 c3 by blast
qed

text \<open>
  C10. For every payload longer than the size, encoding without truncation raises
  \<^verbatim>\<open>TruncationError\<close> with the message
  \<^verbatim>\<open>Padded data exceeds allowed padded data size of {size}.\<close>, braces included: the
  same text for every size, with no digit in it, so the size is never written into it.
\<close>

theorem truncation_error_message_literal:
  "sz < int (length p) \<Longrightarrow>
     add_padding p sz False
       = Inl (TruncationError ''Padded data exceeds allowed padded data size of {size}.'')
     \<and> set ''Padded data exceeds allowed padded data size of {size}.''
          \<inter> set ''0123456789'' = {}"
  by (simp add: add_padding_oversize_refused)

theorem truncation_error_message_literal_witness:
  "value_of Bytes_512 < int (length (replicate 511 (0x41 :: byte)))
   \<and> add_padding (replicate 511 0x41) (value_of Bytes_512) False
       = Inl (TruncationError ''Padded data exceeds allowed padded data size of {size}.'')
   \<and> add_padding (replicate 511 0x41) 7 False
       = Inl (TruncationError ''Padded data exceeds allowed padded data size of {size}.'')"
  using truncation_error_message_literal [of "value_of Bytes_512" "replicate 511 0x41"]
        truncation_error_message_literal [of 7 "replicate 511 0x41"]
  by (simp add: PAD_INDICATOR_SIZE_def)

section \<open>Properties of the typed serializer\<close>

text \<open>
  C9. \<open>padded_encode\<close> never truncates. When the serialized bytes of the value are
  longer than the size it raises \<^verbatim>\<open>TruncationError\<close>; and whenever it returns a block,
  that block is \<open>add_padding\<close> of the serialized bytes with \<open>allow_truncation = False\<close>,
  the bytes fit the size, and decoding the block gives all of them back.
\<close>

theorem padded_encode_never_truncates:
  "(to_raw L data = Inr text \<and> str_encode L text BYTE_ENCODING = Inr message
      \<and> sz < int (length message)
     \<longrightarrow> padded_encode L data sz
           = Inl (TruncationError ''Padded data exceeds allowed padded data size of {size}.''))
   \<and> (padded_encode L data sz = Inr block
     \<longrightarrow> (\<exists>text message. to_raw L data = Inr text
            \<and> str_encode L text BYTE_ENCODING = Inr message
            \<and> add_padding message sz False = Inr block
            \<and> int (length message) \<le> sz
            \<and> remove_padding block sz = message))"
proof (intro conjI impI)
  assume "to_raw L data = Inr text \<and> str_encode L text BYTE_ENCODING = Inr message
            \<and> sz < int (length message)"
  then show "padded_encode L data sz
           = Inl (TruncationError ''Padded data exceeds allowed padded data size of {size}.'')"
    by (simp add: padded_encode_def add_padding_oversize_refused)
next
  assume ok: "padded_encode L data sz = Inr block"
  then obtain serialized message where
    ser: "to_raw L data = Inr serialized"
         "str_encode L serialized BYTE_ENCODING = Inr message"
    and pad: "add_padding message sz False = Inr block"
    by (auto simp: padded_encode_def split: sum.splits)
  from pad have fits: "int (length message) \<le> sz" "sz - int (length message) < 65536"
    using add_padding_Inr_fits by blast+
  then obtain h where
    "length h = 2" "int_from_bytes h BYTE_ORDER = sz - int (length message)"
    "add_padding message sz False
       = Inr (h @ message @ replicate (nat (sz - int (length message))) 0)"
    using add_padding_fits [of message sz False] by blast
  with pad have "remove_padding block sz = message"
    by (auto simp: remove_padding_block)
  with ser pad fits(1) show "\<exists>text message. to_raw L data = Inr text
            \<and> str_encode L text BYTE_ENCODING = Inr message
            \<and> add_padding message sz False = Inr block
            \<and> int (length message) \<le> sz
            \<and> remove_padding block sz = message"
    by blast
qed

theorem padded_encode_never_truncates_witness:
  "\<forall>(loads :: string raw \<Rightarrow> error + unit)
     (build :: unit \<Rightarrow> unit \<Rightarrow> Config \<Rightarrow> error + string).
     to_raw (stub_encoder loads build) (replicate 511 CHR ''a'')
       = Inr (replicate 511 CHR ''a'')
   \<and> str_encode (stub_encoder loads build) (replicate 511 CHR ''a'') BYTE_ENCODING
       = Inr (replicate 511 0x61)
   \<and> value_of Bytes_512 < int (length (replicate 511 (0x61 :: byte)))
   \<and> padded_encode (stub_encoder loads build) (replicate 511 CHR ''a'') (value_of Bytes_512)
       = Inl (TruncationError ''Padded data exceeds allowed padded data size of {size}.'')
   \<and> padded_encode (stub_encoder loads build) ''{}'' 4
       = Inr [0x00, 0x02, 0x7B, 0x7D, 0x00, 0x00]
   \<and> remove_padding [0x00, 0x02, 0x7B, 0x7D, 0x00, 0x00] 4 = [0x7B, 0x7D]"
proof (intro allI)
  fix loads :: "string raw \<Rightarrow> error + unit"
    and build :: "unit \<Rightarrow> unit \<Rightarrow> Config \<Rightarrow> error + string"
  let ?L = "stub_encoder loads build"
  have ser: "to_raw ?L (replicate 511 CHR ''a'') = Inr (replicate 511 CHR ''a'')"
    by (simp add: to_raw_def stub_encoder_def)
  have enc: "str_encode ?L (replicate 511 CHR ''a'') BYTE_ENCODING
               = Inr (replicate 511 0x61)"
    by (simp add: stub_encoder_def bytes_of_ascii_def)
  have over: "value_of Bytes_512 < int (length (replicate 511 (0x61 :: byte)))"
    by (simp add: PAD_INDICATOR_SIZE_def)
  have small: "padded_encode ?L ''{}'' 4 = Inr [0x00, 0x02, 0x7B, 0x7D, 0x00, 0x00]"
    by (simp add: padded_encode_def to_raw_def stub_encoder_def bytes_of_ascii_def
          add_padding_def Let_def int_to_bytes_Big_two BYTE_ORDER_def py_slice_to_nonneg
          bytes_times_PAD_BYTE numeral_eq_Suc)
  show "to_raw ?L (replicate 511 CHR ''a'') = Inr (replicate 511 CHR ''a'')
   \<and> str_encode ?L (replicate 511 CHR ''a'') BYTE_ENCODING = Inr (replicate 511 0x61)
   \<and> value_of Bytes_512 < int (length (replicate 511 (0x61 :: byte)))
   \<and> padded_encode ?L (replicate 511 CHR ''a'') (value_of Bytes_512)
       = Inl (TruncationError ''Padded data exceeds allowed padded data size of {size}.'')
   \<and> padded_encode ?L ''{}'' 4 = Inr [0x00, 0x02, 0x7B, 0x7D, 0x00, 0x00]
   \<and> remove_padding [0x00, 0x02, 0x7B, 0x7D, 0x00, 0x00] 4 = [0x7B, 0x7D]"
    using ser enc over small
      padded_encode_never_truncates [of ?L "replicate 511 CHR ''a''"
        "replicate 511 CHR ''a''" "replicate 511 0x61" "value_of Bytes_512"]
      padded_encode_never_truncates [of ?L "''{}''" _ _ 4
        "[0x00, 0x02, 0x7B, 0x7D, 0x00, 0x00]"]
    by (auto simp: to_raw_def stub_encoder_def bytes_of_ascii_def)
qed

end
